theory Spec2Isabelle
  imports Main "HOL-Library.Sublist"
begin

section \<open>Python string primitives used by the services\<close>

text \<open>
  A Python \<open>str\<close> is modelled as a \<open>string\<close>, one \<open>char\<close> per code point, so that
  \<open>length\<close> is Python's \<open>len\<close>. The character type has 256 values: the model covers the
  texts whose code points lie below 256. Python integers are \<open>int\<close>.
\<close>

definition newline :: char where
  "newline = CHR 0x0A"

text \<open>\<open>s[:k]\<close>: a negative bound counts from the end of the string.\<close>

definition slice_to :: "string \<Rightarrow> int \<Rightarrow> string" where
  "slice_to s k = (if k < 0 then take (nat (int (length s) + k)) s else take (nat k) s)"

text \<open>\<open>s.rfind(c)\<close> for a one-character \<open>c\<close>: the highest index holding \<open>c\<close>, or \<open>-1\<close>.\<close>

primrec rfind :: "char \<Rightarrow> string \<Rightarrow> int" where
  "rfind c [] = - 1"
| "rfind c (x # xs) =
     (let later = rfind c xs
      in if 0 \<le> later then later + 1 else if x = c then 0 else - 1)"

text \<open>\<open>s.split(c)\<close> for a one-character separator; the result is never empty.\<close>

fun split_on :: "char \<Rightarrow> string \<Rightarrow> string list" where
  "split_on c [] = [[]]"
| "split_on c (x # xs) =
     (if x = c then [] # split_on c xs
      else (case split_on c xs of [] \<Rightarrow> [[x]] | first # others \<Rightarrow> (x # first) # others))"

text \<open>\<open>sep.join(parts)\<close>.\<close>

fun join :: "string \<Rightarrow> string list \<Rightarrow> string" where
  "join sep [] = []"
| "join sep [p] = p"
| "join sep (p # q # ps) = p @ sep @ join sep (q # ps)"

text \<open>\<open>s.startswith(p)\<close>.\<close>

definition startswith :: "string \<Rightarrow> string \<Rightarrow> bool" where
  "startswith s p = prefix p s"

text \<open>
  \<open>c.isspace()\<close> on the code points below 256, the set that \<open>strip()\<close> and
  \<open>split()\<close> without arguments treat as whitespace.
\<close>

definition isspace :: "char \<Rightarrow> bool" where
  "isspace c \<longleftrightarrow> c \<in> {CHR 0x09, CHR 0x0A, CHR 0x0B, CHR 0x0C, CHR 0x0D,
      CHR 0x1C, CHR 0x1D, CHR 0x1E, CHR 0x1F, CHR 0x20, CHR 0x85, CHR 0xA0}"

text \<open>
  \<open>s.lower()\<close> on the code points below 256: the letters \<open>A\<close> to \<open>Z\<close> and the
  accented capitals 192 to 222 (without the multiplication sign 215) move up by 32.
\<close>

definition lower_char :: "char \<Rightarrow> char" where
  "lower_char c =
     (let n = of_char c :: nat
      in if (65 \<le> n \<and> n \<le> 90) \<or> (192 \<le> n \<and> n \<le> 222 \<and> n \<noteq> 215)
         then char_of (n + 32) else c)"

definition lower :: "string \<Rightarrow> string" where
  "lower s = map lower_char s"

text \<open>\<open>s.strip()\<close>.\<close>

definition strip :: "string \<Rightarrow> string" where
  "strip s = rev (dropWhile isspace (rev (dropWhile isspace s)))"

text \<open>
  \<open>s.split()\<close>: the maximal runs of characters that are not whitespace;
  \<open>split_words [] s\<close> is the list of tokens, \<open>word\<close> the token being read.
\<close>

fun split_words :: "string \<Rightarrow> string \<Rightarrow> string list" where
  "split_words word [] = (if word = [] then [] else [word])"
| "split_words word (c # cs) =
     (if isspace c then (if word = [] then split_words [] cs else word # split_words [] cs)
      else split_words (word @ [c]) cs)"

text \<open>\<open>p in s\<close> for two strings is \<open>sublist p s\<close>: \<open>p\<close> occurs in \<open>s\<close> as a contiguous run.\<close>

section \<open>\<open>GroqService._enforce_character_limit\<close>\<close>

text \<open>The note appended when the cut text leaves more than 50 characters of room.\<close>

definition continuation_note :: string where
  "continuation_note = [newline, newline] @ ''[Content continued in comments...]''"

text \<open>\<open>max(last_period, last_question, last_exclamation)\<close> over the hard prefix.\<close>

definition best_ending :: "string \<Rightarrow> int" where
  "best_ending truncated =
     max (rfind CHR ''.'' truncated) (max (rfind CHR ''?'' truncated) (rfind CHR ''!'' truncated))"

text \<open>The loop over \<open>lines\<close> that skips a line starting with \<open>#\<close> of length below 3.\<close>

primrec drop_incomplete_hashtags :: "string list \<Rightarrow> string list" where
  "drop_incomplete_hashtags [] = []"
| "drop_incomplete_hashtags (line # rest) =
     (if startswith line ''#'' \<and> length line < 3 then drop_incomplete_hashtags rest
      else line # drop_incomplete_hashtags rest)"

definition enforce_character_limit :: "string \<Rightarrow> int \<Rightarrow> string" where
  "enforce_character_limit content max_chars =
     (if int (length content) \<le> max_chars then content
      else
        let truncated = slice_to content max_chars;
            ending = best_ending truncated;
            truncated = (if ending > max_chars - 200 then slice_to content (ending + 1)
                         else truncated)
        in if int (length content) > max_chars then
             let cleaned_lines = drop_incomplete_hashtags (split_on newline truncated);
                 truncated = join [newline] cleaned_lines
             in if int (length truncated) < max_chars - 50 then truncated @ continuation_note
                else truncated
           else truncated)"

section \<open>\<open>LinkedInService.create_post\<close>: the safety check on the length\<close>

text \<open>
  The value of \<open>content\<close> after the safety check that opens \<open>create_post\<close>, which is the
  text sent to the publishing API.
\<close>

definition create_post_content :: "string \<Rightarrow> string" where
  "create_post_content content =
     (if length content > 3000 then
        let truncated = slice_to content 2950;
            ending = best_ending truncated
        in if ending > 2800 then slice_to content (ending + 1) else truncated
      else content)"

section \<open>\<open>GroqService._clean_response\<close>\<close>

definition instruction_phrases :: "string list" where
  "instruction_phrases =
     [''Here's a LinkedIn post about'',
      ''Here's a professional LinkedIn post'',
      ''LinkedIn post:'',
      ''Content Requirements:'',
      ''REQUIREMENTS:'',
      ''Instructions:'',
      ''Write the LinkedIn post:'',
      ''Generate the post content now:'',
      ''Post content:'',
      ''CRITICAL:'',
      ''Length:'',
      ''Tone:'',
      ''Focus:'',
      ''Target audience:'',
      ''End with:'',
      ''Include 3-4'',
      ''- Write'',
      ''- Use'',
      ''- Include'',
      ''- Provide'',
      ''- Sound like'']"

text \<open>The inner loop over the phrases, which sets \<open>should_skip\<close> at the first match.\<close>

definition should_skip :: "string \<Rightarrow> bool" where
  "should_skip line = list_ex (\<lambda>phrase. sublist (lower phrase) (lower line)) instruction_phrases"

text \<open>
  The loop over the lines; \<open>cleaned_lines\<close> is the list built so far, to which a kept
  line is appended.
\<close>

fun clean_lines :: "string list \<Rightarrow> string list \<Rightarrow> string list" where
  "clean_lines cleaned_lines [] = cleaned_lines"
| "clean_lines cleaned_lines (raw # rest) =
     (let line = strip raw
      in if should_skip line then clean_lines cleaned_lines rest
         else if line = [] \<and> cleaned_lines = [] then clean_lines cleaned_lines rest
         else if startswith line ''-'' \<and> length (split_words [] line) < 8
           then clean_lines cleaned_lines rest
         else clean_lines (cleaned_lines @ [line]) rest)"

text \<open>
  The result carries the returned text and whether the warning
  \<open>Content seems too short after cleaning\<close> was logged.
\<close>

record cleaned =
  final_content :: string
  too_short_warning :: bool

definition clean_response :: "string \<Rightarrow> cleaned" where
  "clean_response content =
     (let cleaned_lines = clean_lines [] (split_on newline content);
          final = strip (join [newline] cleaned_lines)
      in \<lparr>final_content = final, too_short_warning = (length final < 50)\<rparr>)"

section \<open>\<open>GroqService\<close>: model selection and generation\<close>

definition available_models :: "(string \<times> string) list" where
  "available_models =
     [(''fast'', ''llama-3.1-8b-instant''),
      (''balanced'', ''gemma2-9b-it''),
      (''quality'', ''llama-3.3-70b-versatile''),
      (''compound'', ''compound-beta'')]"

text \<open>
  The service object. Of its attributes only \<open>model_name\<close> is ever assigned after
  construction; \<open>available_models\<close> is the constant above.
\<close>

record groq_service =
  api_key :: string
  model_name :: string

datatype py_error = KeyError string

text \<open>\<open>self.available_models[k]\<close>, which raises \<open>KeyError\<close> for a missing key.\<close>

definition lookup_model :: "string \<Rightarrow> py_error + string" where
  "lookup_model k =
     (case map_of available_models k of None \<Rightarrow> Inl (KeyError k) | Some m \<Rightarrow> Inr m)"

text \<open>
  \<open>__init__\<close>; the argument \<open>model_name\<close> is optional, and \<open>None\<close> and the empty string
  both count as absent.
\<close>

definition init :: "string \<Rightarrow> string option \<Rightarrow> py_error + groq_service" where
  "init key name =
     (case name of
        Some n \<Rightarrow>
          if n \<noteq> [] \<and> n \<in> set (map snd available_models)
            then Inr \<lparr>api_key = key, model_name = n\<rparr>
          else if n \<noteq> [] \<and> n \<in> set (map fst available_models)
            then (case lookup_model n of
                    Inl err \<Rightarrow> Inl err
                  | Inr m \<Rightarrow> Inr \<lparr>api_key = key, model_name = m\<rparr>)
          else (case lookup_model ''quality'' of
                  Inl err \<Rightarrow> Inl err
                | Inr m \<Rightarrow> Inr \<lparr>api_key = key, model_name = m\<rparr>)
      | None \<Rightarrow>
          (case lookup_model ''quality'' of
             Inl err \<Rightarrow> Inl err
           | Inr m \<Rightarrow> Inr \<lparr>api_key = key, model_name = m\<rparr>))"

text \<open>\<open>switch_model\<close>: an unknown key is logged and changes nothing.\<close>

definition switch_model :: "string \<Rightarrow> groq_service \<Rightarrow> py_error + groq_service" where
  "switch_model model_key s =
     (if model_key \<in> set (map fst available_models)
        then (case lookup_model model_key of
                Inl err \<Rightarrow> Inl err
              | Inr m \<Rightarrow> Inr (s\<lparr>model_name := m\<rparr>))
      else Inr s)"

text \<open>
  The generation provider is outside the repository. One call of
  \<open>client.chat.completions.create\<close> with a model identifier and a prompt either raises
  with a message (this also stands for any other exception inside the \<open>try\<close> block of
  \<open>_generate_with_groq\<close>), answers without a choice, or answers with a text. The
  provider has a state of its own, of any type \<open>'w\<close>, which each call may change.
\<close>

datatype api_reply = ApiRaises string | ApiEmpty | ApiContent string

type_synonym 'w provider = "'w \<Rightarrow> string \<Rightarrow> string \<Rightarrow> api_reply \<times> 'w"

text \<open>
  \<open>_generate_with_groq\<close>: \<open>Inl\<close> is the message of the exception raised, \<open>Inr\<close> the
  cleaned text returned. Both branches on the model identifier send the same two
  messages and differ only in the sampling parameters handed to the provider.
\<close>

definition generate_with_groq ::
  "'w provider \<Rightarrow> string \<Rightarrow> string \<Rightarrow> 'w \<Rightarrow> (string + string) \<times> 'w" where
  "generate_with_groq api model prompt w =
     (case api w model prompt of
        (ApiContent raw, w') \<Rightarrow> (Inr (final_content (clean_response (strip raw))), w')
      | (ApiEmpty, w') \<Rightarrow> (Inl (''Groq API error: '' @ ''Empty response from Groq API''), w')
      | (ApiRaises msg, w') \<Rightarrow> (Inl (''Groq API error: '' @ msg), w'))"

text \<open>The two tests that \<open>generate_post_content\<close> applies to \<open>str(e)\<close>.\<close>

definition is_model_issue :: "string \<Rightarrow> bool" where
  "is_model_issue e \<longleftrightarrow>
     sublist ''model'' (lower e)
     \<and> (sublist ''decommissioned'' (lower e) \<or> sublist ''deprecated'' (lower e))"

definition is_rate_limit :: "string \<Rightarrow> bool" where
  "is_rate_limit e \<longleftrightarrow>
     sublist ''rate'' (lower e) \<or> sublist ''quota'' (lower e) \<or> sublist ''429'' e"

text \<open>
  The advisory text opens with the two code points U+26A0 and U+FE0F, which lie above
  255; they are carried here as the six bytes of their UTF-8 encoding.
\<close>

definition warning_sign :: string where
  "warning_sign = [CHR 0xE2, CHR 0x9A, CHR 0xA0, CHR 0xEF, CHR 0xB8, CHR 0x8F]"

definition rate_limit_advisory :: "string \<Rightarrow> string \<Rightarrow> string" where
  "rate_limit_advisory topic model =
     warning_sign @ '' Rate limit reached for Groq API.'' @ [newline]
     @ ''Please wait a moment before generating more content.'' @ [newline, newline]
     @ ''Topic requested: '' @ topic @ [newline, newline]
     @ ''Current model: '' @ model @ [newline]
     @ ''Try switching to a faster model like 'fast' for higher rate limits.''
     @ [newline, newline]
     @ ''Visit: https://console.groq.com/docs/rate-limits for more info.''"

text \<open>
  The end of the handler, reached by every failure that did not return from the
  fallback: the advisory text for a rate limit, else \<open>raise e\<close>.
\<close>

definition handle_rate_limit :: "string \<Rightarrow> string \<Rightarrow> groq_service \<Rightarrow> string + string" where
  "handle_rate_limit e topic s =
     (if is_rate_limit e then Inr (rate_limit_advisory topic (model_name s)) else Inl e)"

text \<open>
  One run of \<open>generate_post_content\<close>: what it returns (\<open>Inr\<close>) or raises (\<open>Inl\<close>, the
  message), the service object afterwards, the model identifiers sent to the provider in
  order, and the provider's state afterwards.
\<close>

record 'w generation =
  outcome :: "string + string"
  service :: groq_service
  requests :: "string list"
  world :: 'w

text \<open>
  \<open>generate_post_content\<close> for a \<open>topic\<close> of type \<open>str\<close>, as its signature declares.
  \<open>prompt\<close> is the string that \<open>_build_prompt\<close> returns for the request; it is built once
  and handed unchanged to each provider call.
\<close>

definition generate_post_content ::
  "'w provider \<Rightarrow> string \<Rightarrow> string \<Rightarrow> groq_service \<Rightarrow> 'w \<Rightarrow> 'w generation" where
  "generate_post_content api topic prompt s w =
     (case generate_with_groq api (model_name s) prompt w of
        (Inr content, w1) \<Rightarrow>
          \<lparr>outcome = Inr (enforce_character_limit content 2950), service = s,
           requests = [model_name s], world = w1\<rparr>
      | (Inl e, w1) \<Rightarrow>
          if is_model_issue e then
            let original_model = model_name s
            in (case lookup_model ''fast'' of
                  Inl key_error \<Rightarrow>
                    \<lparr>outcome = handle_rate_limit e topic (s\<lparr>model_name := original_model\<rparr>),
                     service = s\<lparr>model_name := original_model\<rparr>,
                     requests = [model_name s], world = w1\<rparr>
                | Inr fast \<Rightarrow>
                    (case generate_with_groq api fast prompt w1 of
                       (Inr content, w2) \<Rightarrow>
                         \<lparr>outcome = Inr (enforce_character_limit content 2950),
                          service = s\<lparr>model_name := fast\<rparr>,
                          requests = [model_name s, fast], world = w2\<rparr>
                     | (Inl fallback_error, w2) \<Rightarrow>
                         \<lparr>outcome = handle_rate_limit e topic (s\<lparr>model_name := original_model\<rparr>),
                          service = s\<lparr>model_name := original_model\<rparr>,
                          requests = [model_name s, fast], world = w2\<rparr>))
          else
            \<lparr>outcome = handle_rate_limit e topic s, service = s,
             requests = [model_name s], world = w1\<rparr>)"

section \<open>A scripted provider for the examples\<close>

text \<open>
  A provider that answers its calls from a list of replies, in order; its state counts
  the calls made so far. The scenarios below run the service against it.
\<close>

definition scripted :: "api_reply list \<Rightarrow> nat provider" where
  "scripted replies =
     (\<lambda>k model prompt. (if k < length replies then replies ! k else ApiEmpty, Suc k))"

section \<open>Facts about the string primitives\<close>

lemma rfind_lower: "- 1 \<le> rfind c s"
  by (induction s) (auto simp: Let_def)

lemma rfind_upper: "rfind c s < int (length s)"
  by (induction s) (auto simp: Let_def)

lemma best_ending_lower: "- 1 \<le> best_ending s"
  using rfind_lower [of "CHR ''.''" s] by (simp add: best_ending_def)

lemma best_ending_upper: "best_ending s < int (length s)"
  by (simp add: best_ending_def rfind_upper)

lemma length_slice_to: "0 \<le> k \<Longrightarrow> int (length (slice_to s k)) \<le> k"
  by (simp add: slice_to_def)

lemma split_on_not_Nil [simp]: "split_on c s \<noteq> []"
  by (induction s) (auto split: list.splits)

lemma join_split_on [simp]: "join [c] (split_on c s) = s"
proof (induction s)
  case Nil
  show ?case by simp
next
  case (Cons x xs)
  obtain l ls where sp: "split_on c xs = l # ls"
    by (cases "split_on c xs") simp_all
  show ?case
  proof (cases "x = c")
    case True
    with Cons sp show ?thesis by simp
  next
    case False
    with Cons sp show ?thesis by (cases ls) simp_all
  qed
qed

lemma split_on_no_sep: "c \<notin> set s \<Longrightarrow> split_on c s = [s]"
  by (induction s) auto

lemma split_on_append_sep: "split_on c (a @ c # b) = split_on c a @ split_on c b"
proof (induction a)
  case Nil
  show ?case by simp
next
  case (Cons x xs)
  then show ?case by (cases "split_on c xs") auto
qed

lemma split_on_lines_no_sep: "l \<in> set (split_on c s) \<Longrightarrow> c \<notin> set l"
proof (induction s arbitrary: l)
  case Nil
  then show ?case by simp
next
  case (Cons x xs)
  then show ?case
    by (cases "split_on c xs") (auto split: if_splits)
qed

lemma split_on_join:
  "ls \<noteq> [] \<Longrightarrow> \<forall>l\<in>set ls. c \<notin> set l \<Longrightarrow> split_on c (join [c] ls) = ls"
proof (induction "[c]" ls rule: join.induct)
  case 1
  then show ?case by simp
next
  case (2 p)
  then show ?case by (simp add: split_on_no_sep)
next
  case (3 p q ps)
  then show ?case by (simp add: split_on_append_sep split_on_no_sep)
qed

lemma length_join:
  "length (join sep ps) = sum_list (map length ps) + (length ps - 1) * length sep"
  by (induction sep ps rule: join.induct) simp_all

lemma rfind_absent: "c \<notin> set s \<Longrightarrow> rfind c s = - 1"
  by (induction s) (auto simp: Let_def)

lemma rfind_append:
  "rfind c (xs @ ys) = (if 0 \<le> rfind c ys then int (length xs) + rfind c ys else rfind c xs)"
  using rfind_lower [of c ys] by (induction xs) (auto simp: Let_def)

lemma rfind_replicate_Suc: "rfind c (replicate (Suc n) c) = int n"
  by (induction n) simp_all

lemma rfind_replicate_same: "0 < n \<Longrightarrow> rfind c (replicate n c) = int n - 1"
  using rfind_replicate_Suc [of c "n - 1"] by simp

lemma startswith_replicate: "startswith (replicate n c) [d] \<longleftrightarrow> 0 < n \<and> d = c"
  by (cases n) (simp_all add: startswith_def)

section \<open>Facts about the steps of the length enforcer\<close>

lemma drop_incomplete_hashtags_filter:
  "drop_incomplete_hashtags ls = filter (\<lambda>l. \<not> (startswith l ''#'' \<and> length l < 3)) ls"
  by (induction ls) simp_all

lemma drop_incomplete_subset: "set (drop_incomplete_hashtags ls) \<subseteq> set ls"
  by (auto simp: drop_incomplete_hashtags_filter)

lemma drop_incomplete_complete:
  "l \<in> set (drop_incomplete_hashtags ls) \<Longrightarrow> \<not> (startswith l ''#'' \<and> length l < 3)"
  by (auto simp: drop_incomplete_hashtags_filter)

lemma drop_incomplete_none:
  "\<forall>l\<in>set ls. \<not> (startswith l ''#'' \<and> length l < 3) \<Longrightarrow> drop_incomplete_hashtags ls = ls"
  by (simp add: drop_incomplete_hashtags_filter)

lemma length_join_drop_incomplete:
  "length (join sep (drop_incomplete_hashtags ls)) \<le> length (join sep ls)"
proof -
  let ?P = "\<lambda>l. \<not> (startswith l ''#'' \<and> length l < 3)"
  have "sum_list (map length (filter ?P ls)) \<le> sum_list (map length ls)"
    by (rule sum_list_filter_le_nat)
  moreover have "(length (filter ?P ls) - 1) * length sep \<le> (length ls - 1) * length sep"
    by (intro mult_le_mono1 diff_le_mono length_filter_le)
  ultimately show ?thesis
    unfolding length_join drop_incomplete_hashtags_filter by (rule add_mono)
qed

lemma length_continuation_note: "length continuation_note = 36"
  by (simp add: continuation_note_def)

lemma last_lines_continuation:
  "last (split_on newline (s @ continuation_note)) = ''[Content continued in comments...]''"
proof -
  let ?body = "''[Content continued in comments...]''"
  have body: "split_on newline ?body = [?body]"
    by (rule split_on_no_sep) (simp add: newline_def)
  have "s @ continuation_note = s @ newline # ([] @ newline # ?body)"
    by (simp add: continuation_note_def)
  then have "split_on newline (s @ continuation_note)
      = split_on newline s @ split_on newline [] @ split_on newline ?body"
    by (simp only: split_on_append_sep append_assoc)
  then show ?thesis
    by (simp only: body split_on.simps(1)) simp
qed

lemma last_line_joined:
  "\<not> (startswith (last (split_on newline
          (join [newline] (drop_incomplete_hashtags (split_on newline s))))) ''#''
      \<and> length (last (split_on newline
          (join [newline] (drop_incomplete_hashtags (split_on newline s))))) < 3)"
proof (cases "drop_incomplete_hashtags (split_on newline s) = []")
  case True
  then show ?thesis by (simp add: startswith_def)
next
  case False
  let ?ls = "drop_incomplete_hashtags (split_on newline s)"
  have "\<forall>l\<in>set ?ls. newline \<notin> set l"
    using drop_incomplete_subset split_on_lines_no_sep by blast
  with False have "split_on newline (join [newline] ?ls) = ?ls"
    by (rule split_on_join)
  moreover have "last ?ls \<in> set ?ls"
    using False by simp
  ultimately show ?thesis
    using drop_incomplete_complete [of "last ?ls" "split_on newline s"] by simp
qed

text \<open>
  On the truncation path the result is the rejoined text, followed by the continuation
  note when more than 50 characters of room are left.
\<close>

lemma enforce_truncating:
  assumes "max_chars < int (length t)"
  shows "\<exists>cut. int (length cut) \<le> max (int (length (slice_to t max_chars))) (best_ending (slice_to t max_chars) + 1)
      \<and> enforce_character_limit t max_chars =
          (let joined = join [newline] (drop_incomplete_hashtags (split_on newline cut))
           in if int (length joined) < max_chars - 50 then joined @ continuation_note else joined)"
proof -
  define hard where "hard = slice_to t max_chars"
  define cut where "cut = (if best_ending hard > max_chars - 200
                           then slice_to t (best_ending hard + 1) else hard)"
  have "int (length (slice_to t (best_ending hard + 1))) \<le> best_ending hard + 1"
    using best_ending_lower [of hard] by (intro length_slice_to) simp
  then have "int (length cut) \<le> max (int (length hard)) (best_ending hard + 1)"
    by (simp add: cut_def le_max_iff_disj)
  moreover have "enforce_character_limit t max_chars =
          (let joined = join [newline] (drop_incomplete_hashtags (split_on newline cut))
           in if int (length joined) < max_chars - 50 then joined @ continuation_note else joined)"
    using assms
    by (simp add: enforce_character_limit_def Let_def hard_def cut_def)
  ultimately show ?thesis
    unfolding hard_def by blast
qed

section \<open>Facts about the response cleaner\<close>

lemma sublist_trans: "sublist a b \<Longrightarrow> sublist b c \<Longrightarrow> sublist a c"
  by (rule sublist_order.order.trans)

lemma sublist_strip: "sublist (strip s) s"
proof -
  have "suffix (dropWhile isspace (rev (dropWhile isspace s))) (rev (dropWhile isspace s))"
    by (rule suffix_dropWhile)
  then have "prefix (strip s) (dropWhile isspace s)"
    by (simp add: strip_def suffix_to_prefix)
  then have "sublist (strip s) (dropWhile isspace s)"
    by (rule prefix_imp_sublist)
  then show ?thesis
    using sublist_dropWhile by (rule sublist_trans)
qed

lemma set_strip: "set (strip s) \<subseteq> set s"
  using sublist_strip by (rule set_mono_sublist)

lemma prefix_hd_split_on: "prefix (hd (split_on c s)) s"
  by (induction s) (auto split: list.splits)

lemma split_on_line_sublist: "l \<in> set (split_on c s) \<Longrightarrow> sublist l s"
proof (induction s arbitrary: l)
  case Nil
  then show ?case by simp
next
  case (Cons x xs)
  obtain h t where sp: "split_on c xs = h # t"
    by (cases "split_on c xs") simp_all
  have h: "prefix h xs"
    using prefix_hd_split_on [of c xs] by (simp add: sp)
  from Cons.prems sp have "l = [] \<or> l = x # h \<or> l \<in> set (split_on c xs)"
    by (auto split: if_splits)
  then show ?case
    using h Cons.IH by (auto simp: sublist_Cons_right)
qed

lemma prefix_first_line:
  "prefix l s \<Longrightarrow> c \<notin> set l \<Longrightarrow> prefix l (hd (split_on c s))"
proof (induction s arbitrary: l)
  case Nil
  then show ?case by simp
next
  case (Cons x xs)
  then show ?case by (cases l) (auto split: list.splits)
qed

lemma sublist_within_line:
  "sublist l s \<Longrightarrow> c \<notin> set l \<Longrightarrow> \<exists>l'\<in>set (split_on c s). sublist l l'"
proof (induction s)
  case Nil
  then show ?case by simp
next
  case (Cons x xs)
  obtain h t where sp: "split_on c xs = h # t"
    by (cases "split_on c xs") simp_all
  from Cons.prems(1) consider "prefix l (x # xs)" | "sublist l xs"
    by (auto simp: sublist_Cons_right)
  then show ?case
  proof cases
    case 1
    then have "prefix l (hd (split_on c (x # xs)))"
      using Cons.prems(2) by (rule prefix_first_line)
    moreover have "hd (split_on c (x # xs)) \<in> set (split_on c (x # xs))"
      by (rule hd_in_set) (rule split_on_not_Nil)
    ultimately show ?thesis
      using prefix_imp_sublist by blast
  next
    case 2
    then obtain l' where l': "l' \<in> set (split_on c xs)" "sublist l l'"
      using Cons by blast
    show ?thesis
    proof (cases "x = c")
      case True
      with l' show ?thesis by auto
    next
      case False
      from l' sp have "l' = h \<or> l' \<in> set t" by simp
      then show ?thesis
      proof
        assume "l' = h"
        with l'(2) have "sublist l (x # h)" by (simp add: sublist_Cons_right)
        with False sp show ?thesis by auto
      next
        assume "l' \<in> set t"
        with False sp l'(2) show ?thesis by auto
      qed
    qed
  qed
qed

lemma line_of_sublist:
  assumes "sublist m s" and "l \<in> set (split_on c m)"
  shows "\<exists>l'\<in>set (split_on c s). sublist l l'"
proof -
  have "sublist l m"
    using assms(2) by (rule split_on_line_sublist)
  then have "sublist l s"
    using assms(1) by (rule sublist_trans)
  moreover have "c \<notin> set l"
    using assms(2) by (rule split_on_lines_no_sep)
  ultimately show ?thesis
    by (rule sublist_within_line)
qed

lemma lower_sublist: "sublist a b \<Longrightarrow> sublist (lower a) (lower b)"
  unfolding lower_def by (rule map_mono_sublist)

lemma should_skip_sublist: "sublist l l' \<Longrightarrow> should_skip l \<Longrightarrow> should_skip l'"
  unfolding should_skip_def list_ex_iff
  using lower_sublist sublist_trans by blast

lemma instruction_phrases_nonempty: "[] \<notin> set instruction_phrases"
  by (simp add: instruction_phrases_def)

lemma not_should_skip_Nil: "\<not> should_skip []"
  using instruction_phrases_nonempty
  by (auto simp: should_skip_def list_ex_iff lower_def)

lemma clean_lines_kept:
  "l \<in> set (clean_lines acc ls) \<Longrightarrow>
   l \<in> set acc \<or> (\<exists>raw\<in>set ls. l = strip raw \<and> \<not> should_skip l)"
proof (induction acc ls rule: clean_lines.induct)
  case (1 cleaned_lines)
  then show ?case by simp
next
  case (2 cleaned_lines raw rest)
  then show ?case
    by (auto simp: Let_def split: if_splits)
qed

lemma clean_lines_not_skipped:
  assumes "l \<in> set (clean_lines [] (split_on newline content))"
  shows "\<not> should_skip l" and "newline \<notin> set l"
proof -
  obtain raw where raw: "raw \<in> set (split_on newline content)" "l = strip raw" "\<not> should_skip l"
    using clean_lines_kept [OF assms] by auto
  show "\<not> should_skip l" by fact
  have "newline \<notin> set raw"
    using raw(1) by (rule split_on_lines_no_sep)
  then show "newline \<notin> set l"
    using set_strip [of raw] raw(2) by auto
qed

lemma clean_response_lines_not_skipped:
  assumes "l \<in> set (split_on newline (final_content (clean_response content)))"
  shows "\<not> should_skip l"
proof -
  define cleaned where "cleaned = clean_lines [] (split_on newline content)"
  have out: "final_content (clean_response content) = strip (join [newline] cleaned)"
    by (simp add: clean_response_def Let_def cleaned_def)
  obtain l' where l': "l' \<in> set (split_on newline (join [newline] cleaned))" "sublist l l'"
    using line_of_sublist [OF sublist_strip] assms unfolding out by blast
  have "\<not> should_skip l'"
  proof (cases "cleaned = []")
    case True
    with l' show ?thesis by (simp add: not_should_skip_Nil)
  next
    case False
    moreover have "\<forall>k\<in>set cleaned. newline \<notin> set k"
      using clean_lines_not_skipped(2) unfolding cleaned_def by blast
    ultimately have "split_on newline (join [newline] cleaned) = cleaned"
      by (rule split_on_join)
    with l'(1) show ?thesis
      using clean_lines_not_skipped(1) unfolding cleaned_def by simp
  qed
  with l'(2) show ?thesis
    using should_skip_sublist by blast
qed

lemma clean_lines_all_dropped:
  "\<forall>raw\<in>set ls. should_skip (strip raw) \<or> strip raw = []
      \<or> (startswith (strip raw) ''-'' \<and> length (split_words [] (strip raw)) < 8)
   \<Longrightarrow> clean_lines [] ls = []"
  by (induction ls) (auto simp: Let_def)

text \<open>Rules that evaluate the string functions on literals.\<close>

lemmas eval_text = newline_def strip_def isspace_def lower_def lower_char_def char_of_def
  bit_Suc_0_iff sublist_Cons_right startswith_def

lemma lower_phrases:
  "map lower instruction_phrases =
     [''here's a linkedin post about'',
      ''here's a professional linkedin post'',
      ''linkedin post:'',
      ''content requirements:'',
      ''requirements:'',
      ''instructions:'',
      ''write the linkedin post:'',
      ''generate the post content now:'',
      ''post content:'',
      ''critical:'',
      ''length:'',
      ''tone:'',
      ''focus:'',
      ''target audience:'',
      ''end with:'',
      ''include 3-4'',
      ''- write'',
      ''- use'',
      ''- include'',
      ''- provide'',
      ''- sound like'']"
  by (simp add: instruction_phrases_def lower_def lower_char_def char_of_def bit_Suc_0_iff)

lemma should_skip_eval:
  "should_skip line = list_ex (\<lambda>p. sublist p (lower line)) (map lower instruction_phrases)"
  by (simp add: should_skip_def list_ex_iff)

section \<open>Facts about model selection and generation\<close>

lemma lookup_fast: "lookup_model ''fast'' = Inr ''llama-3.1-8b-instant''"
  by (simp add: lookup_model_def available_models_def)

lemma lookup_quality: "lookup_model ''quality'' = Inr ''llama-3.3-70b-versatile''"
  by (simp add: lookup_model_def available_models_def)

lemma lookup_model_known:
  "k \<in> set (map fst available_models) \<Longrightarrow>
   \<exists>m. lookup_model k = Inr m \<and> m \<in> set (map snd available_models)"
  by (auto simp: lookup_model_def available_models_def)

lemma fast_in_catalog: "''llama-3.1-8b-instant'' \<in> set (map snd available_models)"
  by (simp add: available_models_def)

lemma quality_in_catalog: "''llama-3.3-70b-versatile'' \<in> set (map snd available_models)"
  by (simp add: available_models_def)

text \<open>
  The prefix that \<open>_generate_with_groq\<close> puts before the provider's message changes the
  outcome of neither test: matching \<open>str(e)\<close> is matching the provider's own message.
\<close>

lemma lower_append: "lower (a @ b) = lower a @ lower b"
  by (simp add: lower_def)

lemma lower_wrapper: "lower ''Groq API error: '' = ''groq api error: ''"
  by (simp add: eval_text)

lemma sublist_after_wrapper:
  "sublist ''model'' (''groq api error: '' @ m) = sublist ''model'' m"
  "sublist ''decommissioned'' (''groq api error: '' @ m) = sublist ''decommissioned'' m"
  "sublist ''deprecated'' (''groq api error: '' @ m) = sublist ''deprecated'' m"
  "sublist ''rate'' (''groq api error: '' @ m) = sublist ''rate'' m"
  "sublist ''quota'' (''groq api error: '' @ m) = sublist ''quota'' m"
  "sublist ''429'' (''Groq API error: '' @ m) = sublist ''429'' m"
  by (simp_all add: sublist_Cons_right prefix_Cons)

lemma is_model_issue_wrapped: "is_model_issue (''Groq API error: '' @ msg) = is_model_issue msg"
  unfolding is_model_issue_def lower_append lower_wrapper by (simp only: sublist_after_wrapper)

lemma is_rate_limit_wrapped: "is_rate_limit (''Groq API error: '' @ msg) = is_rate_limit msg"
  unfolding is_rate_limit_def lower_append lower_wrapper by (simp only: sublist_after_wrapper)

lemma generate_with_groq_raises:
  "api w model prompt = (ApiRaises msg, w') \<Longrightarrow>
   generate_with_groq api model prompt w = (Inl (''Groq API error: '' @ msg), w')"
  by (simp add: generate_with_groq_def)

lemma generate_with_groq_content:
  "api w model prompt = (ApiContent raw, w') \<Longrightarrow>
   generate_with_groq api model prompt w = (Inr (final_content (clean_response (strip raw))), w')"
  by (simp add: generate_with_groq_def)

text \<open>The three ways a run can go after the first generation call has raised.\<close>

lemma generate_first_success:
  "generate_with_groq api (model_name s) prompt w = (Inr content, w1) \<Longrightarrow>
   generate_post_content api topic prompt s w =
     \<lparr>outcome = Inr (enforce_character_limit content 2950), service = s,
      requests = [model_name s], world = w1\<rparr>"
  by (simp add: generate_post_content_def)

lemma generate_no_fallback:
  "generate_with_groq api (model_name s) prompt w = (Inl e, w1) \<Longrightarrow> \<not> is_model_issue e \<Longrightarrow>
   generate_post_content api topic prompt s w =
     \<lparr>outcome = handle_rate_limit e topic s, service = s,
      requests = [model_name s], world = w1\<rparr>"
  by (simp add: generate_post_content_def)

lemma generate_fallback_success:
  "generate_with_groq api (model_name s) prompt w = (Inl e, w1) \<Longrightarrow> is_model_issue e \<Longrightarrow>
   generate_with_groq api ''llama-3.1-8b-instant'' prompt w1 = (Inr content, w2) \<Longrightarrow>
   generate_post_content api topic prompt s w =
     \<lparr>outcome = Inr (enforce_character_limit content 2950),
      service = s\<lparr>model_name := ''llama-3.1-8b-instant''\<rparr>,
      requests = [model_name s, ''llama-3.1-8b-instant''], world = w2\<rparr>"
  by (simp add: generate_post_content_def lookup_fast)

lemma generate_fallback_failure:
  "generate_with_groq api (model_name s) prompt w = (Inl e, w1) \<Longrightarrow> is_model_issue e \<Longrightarrow>
   generate_with_groq api ''llama-3.1-8b-instant'' prompt w1 = (Inl fallback_error, w2) \<Longrightarrow>
   generate_post_content api topic prompt s w =
     \<lparr>outcome = handle_rate_limit e topic s, service = s,
      requests = [model_name s, ''llama-3.1-8b-instant''], world = w2\<rparr>"
  by (simp add: generate_post_content_def lookup_fast)

lemma advisory_mentions:
  "sublist topic (rate_limit_advisory topic model)"
  "sublist model (rate_limit_advisory topic model)"
proof -
  show "sublist topic (rate_limit_advisory topic model)"
    unfolding rate_limit_advisory_def sublist_def
    by (metis append.assoc)
  show "sublist model (rate_limit_advisory topic model)"
    unfolding rate_limit_advisory_def sublist_def
    by (metis append.assoc)
qed

lemma catalog_ids:
  "set (map snd available_models)
     = {''llama-3.1-8b-instant'', ''gemma2-9b-it'', ''llama-3.3-70b-versatile'', ''compound-beta''}"
  by (simp add: available_models_def)

lemma init_in_catalog:
  "\<exists>s. init key name = Inr s \<and> model_name s \<in> set (map snd available_models)"
proof (cases name)
  case None
  then show ?thesis
    using quality_in_catalog by (simp add: init_def lookup_quality)
next
  case (Some n)
  show ?thesis
  proof (cases "n \<noteq> [] \<and> n \<in> set (map snd available_models)")
    case True
    with Some show ?thesis by (simp add: init_def)
  next
    case not_id: False
    show ?thesis
    proof (cases "n \<noteq> [] \<and> n \<in> set (map fst available_models)")
      case True
      then obtain m where "lookup_model n = Inr m" "m \<in> set (map snd available_models)"
        using lookup_model_known by blast
      with Some not_id True show ?thesis by (auto simp: init_def)
    next
      case False
      with Some not_id show ?thesis
        using quality_in_catalog by (auto simp: init_def lookup_quality)
    qed
  qed
qed

lemma switch_model_in_catalog:
  assumes "model_name s \<in> set (map snd available_models)"
  shows "\<exists>s'. switch_model k s = Inr s' \<and> model_name s' \<in> set (map snd available_models)"
proof (cases "k \<in> set (map fst available_models)")
  case True
  then obtain m where "lookup_model k = Inr m" "m \<in> set (map snd available_models)"
    using lookup_model_known by blast
  with True show ?thesis by (simp add: switch_model_def)
next
  case False
  with assms show ?thesis by (simp add: switch_model_def)
qed

lemma generate_in_catalog:
  assumes "model_name s \<in> set (map snd available_models)"
  shows "model_name (service (generate_post_content api topic prompt s w))
           \<in> set (map snd available_models)"
proof -
  obtain r w1 where first: "generate_with_groq api (model_name s) prompt w = (r, w1)"
    by (cases "generate_with_groq api (model_name s) prompt w")
  show ?thesis
  proof (cases r)
    case (Inr content)
    with first assms show ?thesis
      by (simp add: generate_first_success)
  next
    case (Inl e)
    show ?thesis
    proof (cases "is_model_issue e")
      case False
      with first Inl assms show ?thesis
        by (simp add: generate_no_fallback)
    next
      case True
      obtain r2 w2 where second:
        "generate_with_groq api ''llama-3.1-8b-instant'' prompt w1 = (r2, w2)"
        by (cases "generate_with_groq api ''llama-3.1-8b-instant'' prompt w1")
      from first Inl have first': "generate_with_groq api (model_name s) prompt w = (Inl e, w1)"
        by simp
      show ?thesis
      proof (cases r2)
        case (Inl fallback_error)
        with second assms show ?thesis
          using generate_fallback_failure [OF first' True, of fallback_error w2 topic] by simp
      next
        case (Inr content)
        with second show ?thesis
          using generate_fallback_success [OF first' True, of content w2 topic] fast_in_catalog
          by simp
      qed
    qed
  qed
qed

section \<open>Scenarios against the scripted provider\<close>

lemma hello_cleaned: "final_content (clean_response (strip ''Hello'')) = ''Hello''"
proof -
  have stripped: "strip ''Hello'' = ''Hello''"
    by (simp add: strip_def isspace_def)
  have lines: "split_on newline ''Hello'' = [''Hello'']"
    by (simp add: newline_def)
  have "\<not> should_skip ''Hello''"
    by (simp add: should_skip_eval lower_phrases eval_text)
  then have "clean_lines [] [''Hello''] = [''Hello'']"
    by (simp add: Let_def stripped startswith_def)
  then show ?thesis
    unfolding clean_response_def Let_def stripped lines by (simp add: stripped)
qed

lemma hello_enforced: "enforce_character_limit ''Hello'' 2950 = ''Hello''"
  by (simp add: enforce_character_limit_def)

text \<open>Scenario: the first call reports a decommissioned model and the retry fails too.\<close>

lemma both_fail_calls:
  "generate_with_groq
     (scripted [ApiRaises ''model decommissioned'', ApiRaises ''fallback unavailable''])
     ''llama-3.3-70b-versatile'' prompt 0 = (Inl ''Groq API error: model decommissioned'', Suc 0)"
  "generate_with_groq
     (scripted [ApiRaises ''model decommissioned'', ApiRaises ''fallback unavailable''])
     ''llama-3.1-8b-instant'' prompt (Suc 0) = (Inl ''Groq API error: fallback unavailable'', Suc (Suc 0))"
  by (simp_all add: generate_with_groq_def scripted_def)

lemma decommissioned_matches:
  "is_model_issue ''Groq API error: model decommissioned''"
  "\<not> is_rate_limit ''Groq API error: model decommissioned''"
  by (simp_all add: is_model_issue_def is_rate_limit_def eval_text)

text \<open>Scenario: a message matching both patterns, and a retry that succeeds.\<close>

lemma rescued_calls:
  "generate_with_groq (scripted [ApiRaises ''429: model deprecated'', ApiContent ''Hello''])
     ''llama-3.3-70b-versatile'' prompt 0
     = (Inl ''Groq API error: 429: model deprecated'', Suc 0)"
  "generate_with_groq (scripted [ApiRaises ''429: model deprecated'', ApiContent ''Hello''])
     ''llama-3.1-8b-instant'' prompt (Suc 0) = (Inr ''Hello'', Suc (Suc 0))"
  by (simp_all add: generate_with_groq_def scripted_def hello_cleaned)

lemma deprecated_429_matches:
  "is_model_issue ''Groq API error: 429: model deprecated''"
  "is_rate_limit ''Groq API error: 429: model deprecated''"
  by (simp_all add: is_model_issue_def is_rate_limit_def eval_text)

text \<open>Scenario: a plain rate-limit message.\<close>

lemma too_many_calls:
  "generate_with_groq (scripted [ApiRaises ''429 too many requests''])
     ''llama-3.3-70b-versatile'' prompt 0
     = (Inl ''Groq API error: 429 too many requests'', Suc 0)"
  by (simp add: generate_with_groq_def scripted_def)

lemma too_many_matches:
  "is_rate_limit ''Groq API error: 429 too many requests''"
  "\<not> is_model_issue ''Groq API error: 429 too many requests''"
  by (simp_all add: is_model_issue_def is_rate_limit_def eval_text)

text \<open>Scenario: a decommissioned model and a retry that succeeds.\<close>

lemma retry_calls:
  "generate_with_groq (scripted [ApiRaises ''model decommissioned'', ApiContent ''Hello''])
     ''llama-3.3-70b-versatile'' prompt 0
     = (Inl ''Groq API error: model decommissioned'', Suc 0)"
  "generate_with_groq (scripted [ApiRaises ''model decommissioned'', ApiContent ''Hello''])
     ''llama-3.1-8b-instant'' prompt (Suc 0) = (Inr ''Hello'', Suc (Suc 0))"
  by (simp_all add: generate_with_groq_def scripted_def hello_cleaned)

section \<open>Properties of the length enforcer\<close>

text \<open>
  Claim C1. For every text and every character budget \<open>max_chars\<close> (a length, hence not
  negative), the enforcer returns a text of at most \<open>max_chars\<close> characters, on each of
  its branches: the early return, the cut after the last sentence end, the removal of
  incomplete hashtag lines and the appended continuation note. The model is a total
  function without an error branch, as none of the Python operations used can raise on a
  \<open>str\<close> and an \<open>int\<close>.
\<close>

theorem enforce_length_bound:
  assumes "0 \<le> max_chars"
  shows "int (length (enforce_character_limit t max_chars)) \<le> max_chars"
proof (cases "int (length t) \<le> max_chars")
  case True
  then show ?thesis by (simp add: enforce_character_limit_def)
next
  case False
  then obtain cut where cut: "int (length cut)
        \<le> max (int (length (slice_to t max_chars))) (best_ending (slice_to t max_chars) + 1)"
    and res: "enforce_character_limit t max_chars =
          (let joined = join [newline] (drop_incomplete_hashtags (split_on newline cut))
           in if int (length joined) < max_chars - 50 then joined @ continuation_note else joined)"
    using enforce_truncating [of max_chars t] by auto
  define joined where "joined = join [newline] (drop_incomplete_hashtags (split_on newline cut))"
  have hard_le: "int (length (slice_to t max_chars)) \<le> max_chars"
    using assms by (rule length_slice_to)
  have "best_ending (slice_to t max_chars) + 1 \<le> max_chars"
    using best_ending_upper [of "slice_to t max_chars"] hard_le by simp
  with cut hard_le have cut_le: "int (length cut) \<le> max_chars"
    by simp
  have "length joined \<le> length (join [newline] (split_on newline cut))"
    unfolding joined_def by (rule length_join_drop_incomplete)
  then have "int (length joined) \<le> max_chars"
    using cut_le by simp
  then show ?thesis
    by (simp add: res Let_def joined_def [symmetric] length_continuation_note)
qed

theorem enforce_length_bound_witness:
  "(0::int) \<le> 2950
   \<and> int (length (enforce_character_limit (replicate 3100 CHR ''x'') 2950)) \<le> 2950"
  using enforce_length_bound [of 2950 "replicate 3100 CHR ''x''"] by simp

text \<open>
  Claim C4, as stated: the final line of the result is never a line that starts with
  \<open>#\<close> and is shorter than 3 characters, also for a text that already fits the budget.
  It fails on the path without truncation, which returns the text as it is.
\<close>

theorem enforce_final_line_counterexample:
  "int (length ''#a'') \<le> 2950
   \<and> startswith (last (split_on newline (enforce_character_limit ''#a'' 2950))) ''#''
   \<and> length (last (split_on newline (enforce_character_limit ''#a'' 2950))) < 3"
  by (simp add: enforce_character_limit_def newline_def startswith_def)

text \<open>
  Claim C4, amended: for every text longer than the budget (the truncation path), the
  final line of the result is not a line that starts with \<open>#\<close> and is shorter than 3
  characters.
\<close>

theorem enforce_final_line_truncated:
  assumes "max_chars < int (length t)"
  shows "\<not> (startswith (last (split_on newline (enforce_character_limit t max_chars))) ''#''
            \<and> length (last (split_on newline (enforce_character_limit t max_chars))) < 3)"
proof -
  obtain cut where res: "enforce_character_limit t max_chars =
          (let joined = join [newline] (drop_incomplete_hashtags (split_on newline cut))
           in if int (length joined) < max_chars - 50 then joined @ continuation_note else joined)"
    using enforce_truncating [OF assms] by auto
  define joined where "joined = join [newline] (drop_incomplete_hashtags (split_on newline cut))"
  show ?thesis
  proof (cases "int (length joined) < max_chars - 50")
    case True
    then show ?thesis
      by (simp add: res Let_def joined_def [symmetric] last_lines_continuation startswith_def)
  next
    case False
    then show ?thesis
      using last_line_joined [of cut] by (simp add: res Let_def joined_def [symmetric])
  qed
qed

theorem enforce_final_line_truncated_witness:
  "(6::int) < int (length (''Wow!'' @ [newline] @ ''#a''))
   \<and> \<not> (startswith (last (split_on newline
            (enforce_character_limit (''Wow!'' @ [newline] @ ''#a'') 6))) ''#''
        \<and> length (last (split_on newline
            (enforce_character_limit (''Wow!'' @ [newline] @ ''#a'') 6))) < 3)"
  using enforce_final_line_truncated [of 6 "''Wow!'' @ [newline] @ ''#a''"] by simp


text \<open>
  Claim C8. A text whose length is at most \<open>max_chars\<close> is returned unchanged: the
  enforcer is the identity on texts that already fit the budget.
\<close>

theorem enforce_identity_within_budget:
  "int (length t) \<le> max_chars \<Longrightarrow> enforce_character_limit t max_chars = t"
  by (simp add: enforce_character_limit_def)

theorem enforce_identity_within_budget_witness:
  "int (length ''Short post.'') \<le> 2950
   \<and> enforce_character_limit ''Short post.'' 2950 = ''Short post.''"
  using enforce_identity_within_budget [of "''Short post.''" 2950] by simp

section \<open>The publish layer against the length enforcer\<close>

text \<open>
  A text of 3050 characters whose last sentence end in the first 2950 sits at index 2849:
  both routines cut after it, and the enforcer then appends its continuation note.
\<close>

lemma sentence_end_2849:
  defines "t \<equiv> replicate 2850 CHR ''.'' @ replicate 200 CHR ''a''"
  shows "create_post_content t = replicate 2850 CHR ''.''"
    and "enforce_character_limit t 2950 = replicate 2850 CHR ''.'' @ continuation_note"
proof -
  have hard: "slice_to t 2950 = replicate 2850 CHR ''.'' @ replicate 100 CHR ''a''"
    by (simp add: t_def slice_to_def)
  have e: "best_ending (slice_to t 2950) = 2849"
    by (simp add: hard best_ending_def rfind_append rfind_absent rfind_replicate_same)
  have cut: "slice_to t 2850 = replicate 2850 CHR ''.''"
    by (simp add: t_def slice_to_def)
  show "create_post_content t = replicate 2850 CHR ''.''"
    by (simp add: create_post_content_def e cut) (simp add: t_def)
  have lines: "split_on newline (replicate 2850 CHR ''.'') = [replicate 2850 CHR ''.'']"
    by (rule split_on_no_sep) (simp add: newline_def)
  have keep: "drop_incomplete_hashtags [replicate 2850 CHR ''.''] = [replicate 2850 CHR ''.'']"
    by simp
  show "enforce_character_limit t 2950 = replicate 2850 CHR ''.'' @ continuation_note"
    by (simp add: enforce_character_limit_def e cut lines keep) (simp add: t_def)
qed

text \<open>
  Claim C2, as stated: for every text longer than 3000 characters, the truncation inside
  \<open>create_post\<close> equals the enforcer's result with budget 2950. It fails: the publish layer
  neither drops incomplete hashtag lines nor appends the continuation note, and it accepts
  a sentence end only above index 2800, where the enforcer accepts one above 2750.
\<close>

theorem create_post_not_enforce_counterexample:
  "3000 < length (replicate 2850 CHR ''.'' @ replicate 200 CHR ''a'')
   \<and> create_post_content (replicate 2850 CHR ''.'' @ replicate 200 CHR ''a'')
       \<noteq> enforce_character_limit (replicate 2850 CHR ''.'' @ replicate 200 CHR ''a'') 2950"
  by (simp add: sentence_end_2849 continuation_note_def)

text \<open>
  Claim C2, amended: for every text longer than 3000 characters, the truncation inside
  \<open>create_post\<close> equals the enforcer's result with budget 2950 whenever the last sentence
  end of the 2950-character prefix is absent or at an index of at most 2750, or at an
  index of at least 2899, and no line of the truncated text starts with \<open>#\<close> and is
  shorter than 3 characters.
\<close>

theorem create_post_agrees_with_enforce:
  assumes long: "3000 < length t"
    and ending: "best_ending (slice_to t 2950) \<le> 2750 \<or> 2899 \<le> best_ending (slice_to t 2950)"
    and lines: "\<forall>l\<in>set (split_on newline (create_post_content t)).
                  \<not> (startswith l ''#'' \<and> length l < 3)"
  shows "create_post_content t = enforce_character_limit t 2950"
proof -
  define hard where "hard = slice_to t 2950"
  define e where "e = best_ending hard"
  have len_hard: "length hard = 2950"
    using long by (simp add: hard_def slice_to_def)
  have e_bounds: "- 1 \<le> e" "e < 2950"
    using best_ending_lower [of hard] best_ending_upper [of hard] len_hard
    by (simp_all add: e_def)
  define cut where "cut = (if e > 2800 then slice_to t (e + 1) else hard)"
  have cp: "create_post_content t = cut"
    using long by (simp add: create_post_content_def Let_def cut_def e_def hard_def)
  have same_cut: "(if e > 2950 - 200 then slice_to t (e + 1) else hard) = cut"
    using ending by (auto simp: cut_def e_def hard_def)
  have len_cut: "\<not> int (length cut) < 2950 - 50"
  proof (cases "e > 2800")
    case True
    with ending have "2899 \<le> e" by (simp add: e_def hard_def)
    then show ?thesis
      using True e_bounds long by (simp add: cut_def slice_to_def)
  next
    case False
    then show ?thesis by (simp add: cut_def len_hard)
  qed
  have "drop_incomplete_hashtags (split_on newline cut) = split_on newline cut"
    using lines by (intro drop_incomplete_none) (simp add: cp)
  then have joined: "join [newline] (drop_incomplete_hashtags (split_on newline cut)) = cut"
    by simp
  have over: "\<not> int (length t) \<le> 2950" "int (length t) > 2950"
    using long by simp_all
  have "enforce_character_limit t 2950 = cut"
    unfolding enforce_character_limit_def Let_def hard_def [symmetric] e_def [symmetric]
    by (simp only: over if_False if_True same_cut joined len_cut)
  with cp show ?thesis by simp
qed

theorem create_post_agrees_with_enforce_witness:
  "3000 < length (replicate 3001 CHR ''.'')
   \<and> 2899 \<le> best_ending (slice_to (replicate 3001 CHR ''.'') 2950)
   \<and> split_on newline (create_post_content (replicate 3001 CHR ''.''))
       = [replicate 2950 CHR ''.'']
   \<and> create_post_content (replicate 3001 CHR ''.'')
       = enforce_character_limit (replicate 3001 CHR ''.'') 2950"
proof -
  let ?t = "replicate 3001 CHR ''.''"
  have long: "3000 < length ?t"
    by simp
  have e: "best_ending (slice_to ?t 2950) = 2949"
    by (simp add: slice_to_def best_ending_def rfind_absent rfind_replicate_same)
  have "create_post_content ?t = replicate 2950 CHR ''.''"
    by (simp add: create_post_content_def e) (simp add: slice_to_def)
  moreover have "split_on newline (replicate 2950 CHR ''.'') = [replicate 2950 CHR ''.'']"
    by (rule split_on_no_sep) (simp add: newline_def)
  ultimately have split: "split_on newline (create_post_content ?t) = [replicate 2950 CHR ''.'']"
    by simp
  then have lines: "\<forall>l\<in>set (split_on newline (create_post_content ?t)).
      \<not> (startswith l ''#'' \<and> length l < 3)"
    by (simp add: startswith_replicate)
  show ?thesis
    using create_post_agrees_with_enforce [OF long _ lines] long split by (simp add: e)
qed

section \<open>Properties of the response cleaner\<close>

text \<open>
  Claim C7. For every input text, no line of the cleaned text contains an instruction
  phrase, compared in lower case as the cleaner compares; in particular the line
  \<open>CRITICAL: stay under limit\<close> is never a line of the cleaned text, whatever the input held.
\<close>

theorem clean_response_no_leak:
  "(\<forall>l\<in>set (split_on newline (final_content (clean_response content))).
      \<forall>phrase\<in>set instruction_phrases. \<not> sublist (lower phrase) (lower l))
   \<and> ''CRITICAL: stay under limit''
       \<notin> set (split_on newline (final_content (clean_response content)))"
proof
  show "\<forall>l\<in>set (split_on newline (final_content (clean_response content))).
      \<forall>phrase\<in>set instruction_phrases. \<not> sublist (lower phrase) (lower l)"
    using clean_response_lines_not_skipped [of _ content]
    by (auto simp: should_skip_def list_ex_iff)
  have "sublist (lower ''CRITICAL:'') (lower ''CRITICAL: stay under limit'')"
    by (intro lower_sublist prefix_imp_sublist) simp
  moreover have "''CRITICAL:'' \<in> set instruction_phrases"
    by (simp add: instruction_phrases_def)
  ultimately have "should_skip ''CRITICAL: stay under limit''"
    unfolding should_skip_def list_ex_iff by blast
  then show "''CRITICAL: stay under limit''
       \<notin> set (split_on newline (final_content (clean_response content)))"
    using clean_response_lines_not_skipped by blast
qed

theorem clean_response_no_leak_witness:
  "''CRITICAL: stay under limit''
     \<in> set (split_on newline ''Hi\<newline>CRITICAL: stay under limit\<newline>Bye'')
   \<and> final_content (clean_response ''Hi\<newline>CRITICAL: stay under limit\<newline>Bye'')
       = ''Hi\<newline>Bye''
   \<and> ''CRITICAL: stay under limit''
       \<notin> set (split_on newline (final_content (clean_response
           ''Hi\<newline>CRITICAL: stay under limit\<newline>Bye'')))
   \<and> ''Hi'' \<in> set (split_on newline (final_content (clean_response
           ''Hi\<newline>CRITICAL: stay under limit\<newline>Bye'')))
   \<and> ''Tone:'' \<in> set instruction_phrases
   \<and> \<not> sublist (lower ''Tone:'') (lower ''Hi'')"
proof -
  let ?content = "''Hi\<newline>CRITICAL: stay under limit\<newline>Bye''"
  have lines: "split_on newline ?content = [''Hi'', ''CRITICAL: stay under limit'', ''Bye'']"
    by (simp add: newline_def)
  have skip: "should_skip ''CRITICAL: stay under limit''" "\<not> should_skip ''Hi''"
    "\<not> should_skip ''Bye''"
    by (simp_all add: should_skip_eval lower_phrases eval_text)
  have stripped: "strip ''CRITICAL: stay under limit'' = ''CRITICAL: stay under limit''"
    "strip ''Hi'' = ''Hi''" "strip ''Bye'' = ''Bye''"
    by (simp_all add: strip_def isspace_def)
  have kept: "clean_lines [] [''Hi'', ''CRITICAL: stay under limit'', ''Bye''] = [''Hi'', ''Bye'']"
    by (simp add: Let_def skip stripped startswith_def)
  have joined: "strip (join [newline] [''Hi'', ''Bye'']) = ''Hi\<newline>Bye''"
    by (simp add: strip_def isspace_def newline_def)
  have out: "final_content (clean_response ?content) = ''Hi\<newline>Bye''"
    unfolding clean_response_def Let_def lines kept joined by simp
  have out_lines: "split_on newline ''Hi\<newline>Bye'' = [''Hi'', ''Bye'']"
    by (simp add: newline_def)
  have phrase: "''Tone:'' \<in> set instruction_phrases"
    by (simp add: instruction_phrases_def)
  have "\<not> sublist (lower ''Tone:'') (lower ''Hi'')"
    using clean_response_no_leak [of ?content] phrase
    unfolding out out_lines by simp
  moreover have "''CRITICAL: stay under limit''
       \<notin> set (split_on newline (final_content (clean_response ?content)))"
    using clean_response_no_leak [of ?content] by blast
  ultimately show ?thesis
    unfolding out out_lines lines using phrase by simp
qed

text \<open>
  Claim C9. When every line of the input is dropped by one of the rules (it holds an
  instruction phrase, it is blank, or it starts with a dash and has fewer than 8 tokens),
  the cleaner returns the empty text and logs the warning for a text shorter than 50
  characters. The model is a total function: no step of the cleaner can raise.
\<close>

theorem clean_response_all_filtered:
  assumes "\<forall>raw\<in>set (split_on newline content).
      should_skip (strip raw) \<or> strip raw = []
      \<or> (startswith (strip raw) ''-'' \<and> length (split_words [] (strip raw)) < 8)"
  shows "final_content (clean_response content) = []
         \<and> too_short_warning (clean_response content)"
proof -
  have "clean_lines [] (split_on newline content) = []"
    using assms by (rule clean_lines_all_dropped)
  then show ?thesis
    by (simp add: clean_response_def strip_def)
qed

theorem clean_response_all_filtered_witness:
  "split_on newline ''Tone: casual\<newline>\<newline>- be brief'' = [''Tone: casual'', [], ''- be brief'']
   \<and> should_skip (strip ''Tone: casual'')
   \<and> strip [] = []
   \<and> startswith (strip ''- be brief'') ''-''
   \<and> length (split_words [] (strip ''- be brief'')) < 8
   \<and> final_content (clean_response ''Tone: casual\<newline>\<newline>- be brief'') = []
   \<and> too_short_warning (clean_response ''Tone: casual\<newline>\<newline>- be brief'')"
proof -
  let ?content = "''Tone: casual\<newline>\<newline>- be brief''"
  have lines: "split_on newline ?content = [''Tone: casual'', [], ''- be brief'']"
    by (simp add: newline_def)
  have stripped: "strip ''Tone: casual'' = ''Tone: casual''" "strip [] = []"
    "strip ''- be brief'' = ''- be brief''"
    by (simp_all add: strip_def isspace_def)
  have skip: "should_skip ''Tone: casual''"
    by (simp add: should_skip_eval lower_phrases eval_text)
  have dash: "startswith ''- be brief'' ''-''" "length (split_words [] ''- be brief'') < 8"
    by (simp_all add: startswith_def isspace_def)
  have "\<forall>raw\<in>set (split_on newline ?content).
      should_skip (strip raw) \<or> strip raw = []
      \<or> (startswith (strip raw) ''-'' \<and> length (split_words [] (strip raw)) < 8)"
    unfolding lines by (simp add: stripped skip dash)
  from clean_response_all_filtered [OF this] show ?thesis
    unfolding lines stripped using skip dash by simp
qed

section \<open>Properties of the model fallback and the rate-limit path\<close>

text \<open>
  Claim C6. When the generation call raises with a message that matches \<open>model\<close> and
  (\<open>decommissioned\<close> or \<open>deprecated\<close>), the provider is called exactly once more, with the
  identifier of the fast model; if that retry succeeds, its text is returned (after the
  length enforcer, as on the main path) and the service then uses the fast model, which
  differs from the original one unless the original was the fast model.
\<close>

theorem fallback_retries_once_with_fast:
  assumes first: "generate_with_groq api (model_name s) prompt w = (Inl e, w1)"
    and issue: "is_model_issue e"
  shows "requests (generate_post_content api topic prompt s w)
           = [model_name s, ''llama-3.1-8b-instant'']
     \<and> (generate_with_groq api ''llama-3.1-8b-instant'' prompt w1 = (Inr content, w2) \<longrightarrow>
          outcome (generate_post_content api topic prompt s w)
            = Inr (enforce_character_limit content 2950)
          \<and> model_name (service (generate_post_content api topic prompt s w))
            = ''llama-3.1-8b-instant''
          \<and> (model_name s \<noteq> ''llama-3.1-8b-instant'' \<longrightarrow>
               model_name (service (generate_post_content api topic prompt s w)) \<noteq> model_name s))"
proof -
  obtain r w2' where second: "generate_with_groq api ''llama-3.1-8b-instant'' prompt w1 = (r, w2')"
    by (cases "generate_with_groq api ''llama-3.1-8b-instant'' prompt w1")
  show ?thesis
  proof (cases r)
    case (Inl fallback_error)
    with second show ?thesis
      using generate_fallback_failure [OF first issue, of fallback_error w2' topic] by simp
  next
    case (Inr answer)
    with second show ?thesis
      using generate_fallback_success [OF first issue, of answer w2' topic] by auto
  qed
qed

theorem fallback_retries_once_with_fast_witness:
  "generate_with_groq (scripted [ApiRaises ''model decommissioned'', ApiContent ''Hello''])
     ''llama-3.3-70b-versatile'' ''prompt'' 0
     = (Inl ''Groq API error: model decommissioned'', Suc 0)
   \<and> is_model_issue ''Groq API error: model decommissioned''
   \<and> generate_with_groq (scripted [ApiRaises ''model decommissioned'', ApiContent ''Hello''])
     ''llama-3.1-8b-instant'' ''prompt'' (Suc 0) = (Inr ''Hello'', Suc (Suc 0))
   \<and> requests (generate_post_content
        (scripted [ApiRaises ''model decommissioned'', ApiContent ''Hello''])
        ''AI'' ''prompt'' \<lparr>api_key = ''key'', model_name = ''llama-3.3-70b-versatile''\<rparr> 0)
       = [''llama-3.3-70b-versatile'', ''llama-3.1-8b-instant'']
   \<and> outcome (generate_post_content
        (scripted [ApiRaises ''model decommissioned'', ApiContent ''Hello''])
        ''AI'' ''prompt'' \<lparr>api_key = ''key'', model_name = ''llama-3.3-70b-versatile''\<rparr> 0)
       = Inr ''Hello''
   \<and> model_name (service (generate_post_content
        (scripted [ApiRaises ''model decommissioned'', ApiContent ''Hello''])
        ''AI'' ''prompt'' \<lparr>api_key = ''key'', model_name = ''llama-3.3-70b-versatile''\<rparr> 0))
       = ''llama-3.1-8b-instant''"
proof -
  let ?api = "scripted [ApiRaises ''model decommissioned'', ApiContent ''Hello'']"
  let ?s = "\<lparr>api_key = ''key'', model_name = ''llama-3.3-70b-versatile''\<rparr>"
  have first: "generate_with_groq ?api (model_name ?s) ''prompt'' 0
      = (Inl ''Groq API error: model decommissioned'', Suc 0)"
    by (simp add: retry_calls)
  show ?thesis
    using fallback_retries_once_with_fast
      [OF first decommissioned_matches(1), of "''AI''" "''Hello''" "Suc (Suc 0)"]
    by (simp add: retry_calls decommissioned_matches hello_enforced)
qed

text \<open>
  Claim C3, as stated: when the first call fails with a model issue and the retry fails
  too, the original model is restored and the error of the retry is propagated, carrying
  both messages. It fails: the handler only logs the error of the retry and raises the
  original error.
\<close>

theorem fallback_error_not_propagated_counterexample:
  "generate_with_groq
        (scripted [ApiRaises ''model decommissioned'', ApiRaises ''fallback unavailable''])
        ''llama-3.3-70b-versatile'' ''prompt'' 0
     = (Inl ''Groq API error: model decommissioned'', Suc 0)
   \<and> is_model_issue ''Groq API error: model decommissioned''
   \<and> generate_with_groq
        (scripted [ApiRaises ''model decommissioned'', ApiRaises ''fallback unavailable''])
        ''llama-3.1-8b-instant'' ''prompt'' (Suc 0)
     = (Inl ''Groq API error: fallback unavailable'', Suc (Suc 0))
   \<and> outcome (generate_post_content
        (scripted [ApiRaises ''model decommissioned'', ApiRaises ''fallback unavailable''])
        ''AI'' ''prompt'' \<lparr>api_key = ''key'', model_name = ''llama-3.3-70b-versatile''\<rparr> 0)
       = Inl ''Groq API error: model decommissioned''
   \<and> \<not> sublist ''fallback unavailable'' ''Groq API error: model decommissioned''"
proof -
  have "outcome (generate_post_content
        (scripted [ApiRaises ''model decommissioned'', ApiRaises ''fallback unavailable''])
        ''AI'' ''prompt'' \<lparr>api_key = ''key'', model_name = ''llama-3.3-70b-versatile''\<rparr> 0)
       = Inl ''Groq API error: model decommissioned''"
    by (simp add: generate_post_content_def both_fail_calls decommissioned_matches lookup_fast
        handle_rate_limit_def Let_def)
  moreover have "\<not> sublist ''fallback unavailable'' ''Groq API error: model decommissioned''"
    by (simp add: sublist_Cons_right)
  ultimately show ?thesis
    by (simp only: both_fail_calls decommissioned_matches simp_thms)
qed

text \<open>
  Claim C3, amended: when the first call fails with a model issue and the retry fails
  too, the service object is as before the run (the original model is restored) and the
  original error is handled: it is raised again, or, when its message also matches the
  rate-limit test, the advisory text is returned.
\<close>

theorem fallback_failure_reraises_original:
  assumes first: "generate_with_groq api (model_name s) prompt w = (Inl e, w1)"
    and issue: "is_model_issue e"
    and second: "generate_with_groq api ''llama-3.1-8b-instant'' prompt w1
                   = (Inl fallback_error, w2)"
  shows "service (generate_post_content api topic prompt s w) = s
     \<and> outcome (generate_post_content api topic prompt s w)
         = (if is_rate_limit e then Inr (rate_limit_advisory topic (model_name s)) else Inl e)"
  using generate_fallback_failure [OF first issue second, of topic]
  by (simp add: handle_rate_limit_def)

theorem fallback_failure_reraises_original_witness:
  "generate_with_groq
     (scripted [ApiRaises ''model decommissioned'', ApiRaises ''fallback unavailable''])
     ''llama-3.3-70b-versatile'' ''prompt'' 0 = (Inl ''Groq API error: model decommissioned'', Suc 0)
   \<and> is_model_issue ''Groq API error: model decommissioned''
   \<and> generate_with_groq
        (scripted [ApiRaises ''model decommissioned'', ApiRaises ''fallback unavailable''])
        ''llama-3.1-8b-instant'' ''prompt'' (Suc 0)
     = (Inl ''Groq API error: fallback unavailable'', Suc (Suc 0))
   \<and> service (generate_post_content
        (scripted [ApiRaises ''model decommissioned'', ApiRaises ''fallback unavailable''])
        ''AI'' ''prompt'' \<lparr>api_key = ''key'', model_name = ''llama-3.3-70b-versatile''\<rparr> 0)
       = \<lparr>api_key = ''key'', model_name = ''llama-3.3-70b-versatile''\<rparr>
   \<and> outcome (generate_post_content
        (scripted [ApiRaises ''model decommissioned'', ApiRaises ''fallback unavailable''])
        ''AI'' ''prompt'' \<lparr>api_key = ''key'', model_name = ''llama-3.3-70b-versatile''\<rparr> 0)
       = Inl ''Groq API error: model decommissioned''"
proof -
  let ?api = "scripted [ApiRaises ''model decommissioned'', ApiRaises ''fallback unavailable'']"
  let ?s = "\<lparr>api_key = ''key'', model_name = ''llama-3.3-70b-versatile''\<rparr>"
  have first: "generate_with_groq ?api (model_name ?s) ''prompt'' 0
      = (Inl ''Groq API error: model decommissioned'', Suc 0)"
    by (simp add: both_fail_calls)
  show ?thesis
    using fallback_failure_reraises_original
      [OF first decommissioned_matches(1) both_fail_calls(2), of "''AI''"]
    by (simp add: both_fail_calls decommissioned_matches)
qed

text \<open>
  Claim C5, as stated: every failure whose message matches \<open>rate\<close>, \<open>quota\<close> or \<open>429\<close>
  returns the advisory text with the topic and the current model. It fails for a message
  that also matches the model test when the retry succeeds: the handler tries the
  fallback first and returns the text of the retry.
\<close>

theorem rate_limit_rescued_by_fallback_counterexample:
  "generate_with_groq (scripted [ApiRaises ''429: model deprecated'', ApiContent ''Hello''])
     ''llama-3.3-70b-versatile'' ''prompt'' 0
     = (Inl ''Groq API error: 429: model deprecated'', Suc 0)
   \<and> is_rate_limit ''Groq API error: 429: model deprecated''
   \<and> outcome (generate_post_content
        (scripted [ApiRaises ''429: model deprecated'', ApiContent ''Hello''])
        ''AI'' ''prompt'' \<lparr>api_key = ''key'', model_name = ''llama-3.3-70b-versatile''\<rparr> 0)
       = Inr ''Hello''
   \<and> \<not> sublist ''AI'' ''Hello''"
proof -
  let ?api = "scripted [ApiRaises ''429: model deprecated'', ApiContent ''Hello'']"
  let ?s = "\<lparr>api_key = ''key'', model_name = ''llama-3.3-70b-versatile''\<rparr>"
  have first: "generate_with_groq ?api (model_name ?s) ''prompt'' 0
      = (Inl ''Groq API error: 429: model deprecated'', Suc 0)"
    by (simp add: rescued_calls)
  have "outcome (generate_post_content ?api ''AI'' ''prompt'' ?s 0) = Inr ''Hello''"
    using generate_fallback_success [OF first deprecated_429_matches(1) rescued_calls(2), of "''AI''"]
    by (simp add: hello_enforced)
  moreover have "\<not> sublist ''AI'' ''Hello''"
    by (simp add: sublist_Cons_right)
  ultimately show ?thesis
    by (simp only: rescued_calls deprecated_429_matches simp_thms)
qed

text \<open>
  Claim C5, amended: a failure whose message matches \<open>rate\<close>, \<open>quota\<close> or \<open>429\<close>, and
  which the model fallback does not rescue (the message does not match the model test, or
  the retry fails too), returns the advisory text instead of raising; the text contains
  the topic and the current model identifier, which is the original one.
\<close>

theorem rate_limit_returns_advisory:
  assumes first: "generate_with_groq api (model_name s) prompt w = (Inl e, w1)"
    and rate: "is_rate_limit e"
    and unrescued: "is_model_issue e \<longrightarrow>
      isl (fst (generate_with_groq api ''llama-3.1-8b-instant'' prompt w1))"
  shows "outcome (generate_post_content api topic prompt s w)
           = Inr (rate_limit_advisory topic (model_name s))
     \<and> sublist topic (rate_limit_advisory topic (model_name s))
     \<and> sublist (model_name s) (rate_limit_advisory topic (model_name s))
     \<and> model_name (service (generate_post_content api topic prompt s w)) = model_name s"
proof (cases "is_model_issue e")
  case False
  then show ?thesis
    using generate_no_fallback [OF first False, of topic] rate
    by (simp add: handle_rate_limit_def advisory_mentions)
next
  case True
  with unrescued obtain fallback_error w2
    where "generate_with_groq api ''llama-3.1-8b-instant'' prompt w1 = (Inl fallback_error, w2)"
    by (cases "generate_with_groq api ''llama-3.1-8b-instant'' prompt w1") (auto simp: isl_def)
  then show ?thesis
    using generate_fallback_failure [OF first True, of fallback_error w2 topic] rate
    by (simp add: handle_rate_limit_def advisory_mentions)
qed

theorem rate_limit_returns_advisory_witness:
  "generate_with_groq (scripted [ApiRaises ''429 too many requests''])
     ''llama-3.3-70b-versatile'' ''prompt'' 0
     = (Inl ''Groq API error: 429 too many requests'', Suc 0)
   \<and> is_rate_limit ''Groq API error: 429 too many requests''
   \<and> \<not> is_model_issue ''Groq API error: 429 too many requests''
   \<and> outcome (generate_post_content (scripted [ApiRaises ''429 too many requests''])
        ''AI'' ''prompt'' \<lparr>api_key = ''key'', model_name = ''llama-3.3-70b-versatile''\<rparr> 0)
       = Inr (rate_limit_advisory ''AI'' ''llama-3.3-70b-versatile'')
   \<and> sublist ''AI'' (rate_limit_advisory ''AI'' ''llama-3.3-70b-versatile'')
   \<and> sublist ''llama-3.3-70b-versatile'' (rate_limit_advisory ''AI'' ''llama-3.3-70b-versatile'')"
proof -
  let ?api = "scripted [ApiRaises ''429 too many requests'']"
  let ?s = "\<lparr>api_key = ''key'', model_name = ''llama-3.3-70b-versatile''\<rparr>"
  have first: "generate_with_groq ?api (model_name ?s) ''prompt'' 0
      = (Inl ''Groq API error: 429 too many requests'', Suc 0)"
    by (simp add: too_many_calls)
  have unrescued: "is_model_issue ''Groq API error: 429 too many requests'' \<longrightarrow>
      isl (fst (generate_with_groq ?api ''llama-3.1-8b-instant'' ''prompt'' (Suc 0)))"
    by (simp add: too_many_matches)
  show ?thesis
    using rate_limit_returns_advisory [OF first too_many_matches(1) unrescued, of "''AI''"]
    by (simp add: too_many_calls too_many_matches)
qed

text \<open>
  Claim C10. The model identifier of the service is always one of the four identifiers
  of \<open>available_models\<close>: after construction with any argument (which never raises),
  after \<open>switch_model\<close> with any key (an unknown key changes nothing and does not
  raise), and after any run of \<open>generate_post_content\<close>, whatever the provider answers.
\<close>

theorem model_name_stays_in_catalog:
  "(\<exists>s0. init key name = Inr s0 \<and> model_name s0 \<in> set (map snd available_models))
   \<and> (model_name s \<in> set (map snd available_models) \<longrightarrow>
        (\<exists>s'. switch_model k s = Inr s' \<and> model_name s' \<in> set (map snd available_models))
        \<and> (k \<notin> set (map fst available_models) \<longrightarrow> switch_model k s = Inr s)
        \<and> model_name (service (generate_post_content api topic prompt s w))
             \<in> set (map snd available_models))"
  using init_in_catalog [of key name] switch_model_in_catalog [of s k]
    generate_in_catalog [of s api topic prompt w]
  by (simp add: switch_model_def)

theorem model_name_stays_in_catalog_witness:
  "init ''key'' (Some ''unknown-model'')
     = Inr \<lparr>api_key = ''key'', model_name = ''llama-3.3-70b-versatile''\<rparr>
   \<and> ''llama-3.3-70b-versatile'' \<in> set (map snd available_models)
   \<and> switch_model ''turbo'' \<lparr>api_key = ''key'', model_name = ''llama-3.3-70b-versatile''\<rparr>
       = Inr \<lparr>api_key = ''key'', model_name = ''llama-3.3-70b-versatile''\<rparr>
   \<and> model_name (service (generate_post_content
         (scripted [ApiRaises ''model decommissioned'', ApiContent ''Hello''])
         ''AI'' ''prompt'' \<lparr>api_key = ''key'', model_name = ''llama-3.3-70b-versatile''\<rparr> 0))
       \<in> set (map snd available_models)"
proof -
  let ?s = "\<lparr>api_key = ''key'', model_name = ''llama-3.3-70b-versatile''\<rparr>"
  have init: "init ''key'' (Some ''unknown-model'') = Inr ?s"
    by (simp add: init_def available_models_def lookup_quality)
  have unknown: "''turbo'' \<notin> set (map fst available_models)"
    by (simp add: available_models_def)
  have known: "model_name ?s \<in> set (map snd available_models)"
    using quality_in_catalog by simp
  show ?thesis
    using model_name_stays_in_catalog
      [of "''key''" "Some ''unknown-model''" ?s "''turbo''"
        "scripted [ApiRaises ''model decommissioned'', ApiContent ''Hello'']" "''AI''" "''prompt''" 0]
      known unknown init
    by simp
qed

end
